theory Spec2Isabelle
  imports Main "HOL-Library.Word"
begin

section \<open>badserv: a deliberately misbehaving HTTP server\<close>

text \<open>
  A shallow embedding of \<^verbatim>\<open>main.go\<close> and of the log handler \<^verbatim>\<open>slogMeta\<close>.
  The handler's calls into the Go libraries (\<^verbatim>\<open>net/http\<close>, \<^verbatim>\<open>log/slog\<close>, \<^verbatim>\<open>time\<close>,
  \<^verbatim>\<open>fmt\<close>) are effects: each call is recorded, in program order, as an event of a
  trace, and the results the libraries hand back (does \<^verbatim>\<open>Hijack\<close> succeed, does the
  k-th write on the connection succeed, ...) are read from an environment.
\<close>

subsection \<open>Values, errors, contexts\<close>

type_synonym int64 = "64 word"

text \<open>Go \<^verbatim>\<open>error\<close> values: \<^verbatim>\<open>errors.New\<close> and the wrapping of \<^verbatim>\<open>fmt.Errorf("...: %w", err)\<close>.\<close>

datatype go_error = New string | Wrap string go_error

fun Error :: "go_error \<Rightarrow> string" where
  "Error (New s) = s"
| "Error (Wrap msg e) = msg @ Error e"

definition Errorf :: "string \<Rightarrow> go_error \<Rightarrow> go_error" where
  "Errorf msg e = Wrap msg e"

text \<open>Values of the interface type \<^verbatim>\<open>any\<close> that occur in contexts and log attributes.\<close>

datatype any = AnyInt64 int64 | AnyString string | AnyError go_error

text \<open>
  The two key types of the program are empty structs; every other key a context may
  hold (the server's own keys) is \<open>OtherKey\<close>.
\<close>

datatype ctx_key = connIDCtxKey | requestIDKey | OtherKey string

text \<open>
  A \<^verbatim>\<open>context.Context\<close>: the chain of \<^verbatim>\<open>WithValue\<close> nodes, innermost first, and
  whether its \<^verbatim>\<open>Done\<close> channel is ever closed (the peer disconnects or the server
  shuts down).
\<close>

record Context =
  ctx_values :: "(ctx_key \<times> any) list"
  ctx_cancelled :: bool

definition WithValue :: "Context \<Rightarrow> ctx_key \<Rightarrow> any \<Rightarrow> Context" where
  "WithValue ctx k v = ctx\<lparr>ctx_values := (k, v) # ctx_values ctx\<rparr>"

definition Value :: "Context \<Rightarrow> ctx_key \<Rightarrow> any option" where
  "Value ctx k = map_of (ctx_values ctx) k"

subsection \<open>The fixed document and string helpers\<close>

abbreviation LF :: char where "LF \<equiv> CHR 0x0A"
abbreviation CR :: char where "CR \<equiv> CHR 0x0D"

definition limeric :: string where
  "limeric =
     ''In the realm of requests and replies,'' @ [LF] @
     ''HTTP with its status denies.'' @ [LF] @
     ''With a 404 frown,'' @ [LF] @
     ''It turns users to clowns,'' @ [LF] @
     ''As they search for the page that belies.'' @ [LF]"

text \<open>\<^verbatim>\<open>writeStrs\<close> appends each string to the writer, in order.\<close>

fun writeStrs :: "string \<Rightarrow> string list \<Rightarrow> string" where
  "writeStrs b [] = b"
| "writeStrs b (str # strs) = writeStrs (b @ str) strs"

text \<open>
  \<^verbatim>\<open>strconv.Itoa\<close>: the decimal digits of an integer, most significant first, with a
  leading minus sign for a negative one.
\<close>

definition digit :: "nat \<Rightarrow> char" where
  "digit d = ''0123456789'' ! (d mod 10)"

function formatDecimal :: "nat \<Rightarrow> string" where
  "formatDecimal n = (if n < 10 then [digit n] else formatDecimal (n div 10) @ [digit (n mod 10)])"
  by pat_completeness auto
termination
  by (relation "measure id") auto

declare formatDecimal.simps [simp del]

definition Itoa :: "int \<Rightarrow> string" where
  "Itoa i = (if i < 0 then CHR ''-'' # formatDecimal (nat (- i)) else formatDecimal (nat i))"

subsection \<open>Effects\<close>

datatype level = LevelInfo | LevelError

text \<open>
  One event per library call of the handler, with the arguments the code passes and,
  for the calls on the hijacked connection, the result the call returns
  (\<open>None\<close> is a nil error): a \<^verbatim>\<open>slog\<close> call with its context, level, message and
  attributes; \<^verbatim>\<open>fmt.Println\<close>; \<^verbatim>\<open>http.Error\<close> with message and status code;
  \<^verbatim>\<open>http.ServeContent\<close> with the name and the content (the modification time,
  \<^verbatim>\<open>time.Now()\<close>, is left out); the receive from \<^verbatim>\<open>ctx.Done()\<close> once it completes;
  \<^verbatim>\<open>Hijack\<close>, \<^verbatim>\<open>conn.Close\<close>, \<^verbatim>\<open>time.Sleep\<close> in milliseconds, \<^verbatim>\<open>w.Write\<close> with its
  bytes, and \<^verbatim>\<open>w.Flush\<close> with the bytes that it put on the connection.
\<close>

datatype event =
    Log Context level string "(string \<times> any) list"
  | Println string
  | HttpError string nat
  | ServeContent string string
  | AwaitDone
  | Hijack "go_error option"
  | ConnClose "go_error option"
  | Sleep nat
  | Write string "go_error option"
  | Flush string "go_error option"

text \<open>
  What the response writer and the hijacked connection answer: the result of
  \<^verbatim>\<open>controller.Hijack()\<close>, of the k-th \<^verbatim>\<open>Write\<close> on the connection itself (counted
  from 0: how many bytes the connection took, and the error), and of \<^verbatim>\<open>conn.Close()\<close>.
\<close>

record env =
  Hijack_result :: "go_error option"
  Conn_Write_result :: "nat \<Rightarrow> nat \<times> go_error option"
  Close_result :: "go_error option"

text \<open>
  The parts of \<^verbatim>\<open>*http.Request\<close> the handler reads: its context, the result of
  \<^verbatim>\<open>httputil.DumpRequest(req, true)\<close>, \<^verbatim>\<open>req.URL.Query().Get("action")\<close> and
  \<^verbatim>\<open>req.Host\<close>.
\<close>

record request =
  req_Context :: Context
  DumpRequest :: "go_error + string"
  query_action :: string
  Host :: string

subsection \<open>closeConn and slowWrite\<close>

definition closeConn :: "env \<Rightarrow> event list \<times> go_error option" where
  "closeConn e =
     (case Hijack_result e of
        Some errHijack \<Rightarrow>
          ([Hijack (Some errHijack)], Some (Errorf ''hijacking connection: '' errHijack))
      | None \<Rightarrow>
          ([Hijack None, ConnClose (Close_result e)], None))"

text \<open>
  The \<open>w\<close> that \<^verbatim>\<open>Hijack\<close> returns is a \<^verbatim>\<open>bufio.Writer\<close> on the connection: the bytes
  accepted and not yet written to the connection, the error of the first failed write,
  which it keeps, and the number of writes that the connection has seen. It starts
  empty.
\<close>

record Writer =
  w_buf :: string
  w_err :: "go_error option"
  w_calls :: nat

definition new_Writer :: Writer where
  "new_Writer = \<lparr>w_buf = [], w_err = None, w_calls = 0\<rparr>"

definition ErrShortWrite :: go_error where
  "ErrShortWrite = New ''short write''"

text \<open>
  \<^verbatim>\<open>bufio.Writer.Write\<close>, for data that fits the free space of the buffer: it fails with
  the kept error if there is one, and otherwise appends the data to the buffer. The
  buffer has 4096 bytes, and the handler flushes after every byte, so that a write
  finds the buffer empty unless an error is kept; the branch of \<^verbatim>\<open>Write\<close> for data that
  does not fit is not reached and is left out.
\<close>

definition bufio_Write :: "Writer \<Rightarrow> string \<Rightarrow> Writer \<times> go_error option" where
  "bufio_Write w p =
     (case w_err w of
        Some er \<Rightarrow> (w, Some er)
      | None \<Rightarrow> (w\<lparr>w_buf := w_buf w @ p\<rparr>, None))"

text \<open>
  \<^verbatim>\<open>bufio.Writer.Flush\<close>: it returns the kept error if there is one, and nil on an empty
  buffer. Otherwise it writes the buffer to the connection; a write that takes fewer
  bytes than the buffer holds and reports no error counts as \<^verbatim>\<open>io.ErrShortWrite\<close>. On
  an error the bytes that the connection took leave the buffer and the error is kept;
  without one the buffer is empty afterwards. The result is the new writer, the bytes
  that went to the connection, and the error.
\<close>

definition bufio_Flush :: "env \<Rightarrow> Writer \<Rightarrow> Writer \<times> string \<times> go_error option" where
  "bufio_Flush e w =
     (case w_err w of
        Some er \<Rightarrow> (w, [], Some er)
      | None \<Rightarrow>
          if w_buf w = [] then (w, [], None)
          else
            (case Conn_Write_result e (w_calls w) of
               (n0, err0) \<Rightarrow>
                 (let n = min n0 (length (w_buf w));
                      er = (if n < length (w_buf w) \<and> err0 = None then Some ErrShortWrite
                            else err0);
                      w1 = w\<lparr>w_calls := Suc (w_calls w)\<rparr>
                  in case er of
                       Some x \<Rightarrow>
                         (w1\<lparr>w_buf := drop n (w_buf w), w_err := Some x\<rparr>, take n (w_buf w), Some x)
                     | None \<Rightarrow> (w1\<lparr>w_buf := []\<rparr>, take n (w_buf w), None))))"

text \<open>
  The loop of \<^verbatim>\<open>slowWrite\<close> over the bytes of the response, with the writer \<open>w\<close>: sleep
  100 milliseconds, write one byte, return on a write error, flush and drop the
  flush's result.
\<close>

fun write_bytes :: "env \<Rightarrow> Writer \<Rightarrow> string \<Rightarrow> event list \<times> go_error option" where
  "write_bytes e w [] = ([], None)"
| "write_bytes e w (b # bs) =
     (case bufio_Write w [b] of
        (w1, Some errWrite) \<Rightarrow>
          ([Sleep 100, Write [b] (Some errWrite)], Some (Errorf ''writing response: '' errWrite))
      | (w1, None) \<Rightarrow>
          (case bufio_Flush e w1 of
             (w2, sent, r) \<Rightarrow>
               (case write_bytes e w2 bs of
                  (tr, res) \<Rightarrow> (Sleep 100 # Write [b] None # Flush sent r # tr, res))))"

definition response_bytes :: "request \<Rightarrow> string" where
  "response_bytes req =
     writeStrs []
       [''HTTP/1.1 200 OK'' @ [CR, LF],
        ''Host: '', Host req, [CR, LF],
        ''Content-Length: '', Itoa (int (length limeric)), [CR, LF],
        ''Content-Type: text/plain'' @ [CR, LF, CR, LF]]
     @ limeric"

text \<open>The deferred \<^verbatim>\<open>conn.Close()\<close> runs on every return after a successful hijack.\<close>

definition slowWrite :: "env \<Rightarrow> request \<Rightarrow> event list \<times> go_error option" where
  "slowWrite e req =
     (let ctx = req_Context req in
      case Hijack_result e of
        Some errHijack \<Rightarrow>
          ([Log ctx LevelInfo ''hijacking connection'' [], Hijack (Some errHijack)],
           Some (Errorf ''hijacking connection: '' errHijack))
      | None \<Rightarrow>
          (case write_bytes e new_Writer (response_bytes req) of
             (tr, r) \<Rightarrow>
               ([Log ctx LevelInfo ''hijacking connection'' [], Hijack None,
                 Log ctx LevelInfo ''writing slow response'' []]
                @ tr @ [ConnClose (Close_result e)], r)))"

subsection \<open>The request handler\<close>

record service =
  counter :: int64

text \<open>\<^verbatim>\<open>atomic.Int64.Add\<close>: add, wrapping around, and return the new value.\<close>

definition counter_Add :: "service \<Rightarrow> int64 \<Rightarrow> int64 \<times> service" where
  "counter_Add srv d = (counter srv + d, srv\<lparr>counter := counter srv + d\<rparr>)"

text \<open>
  A call of the handler either returns, or stays blocked for ever on
  \<^verbatim>\<open><-ctx.Done()\<close>; in both cases with the events up to that point.
\<close>

datatype outcome = Returned "event list" | Blocked "event list"

fun trace :: "outcome \<Rightarrow> event list" where
  "trace (Returned tr) = tr"
| "trace (Blocked tr) = tr"

fun terminates :: "outcome \<Rightarrow> bool" where
  "terminates (Returned tr) = True"
| "terminates (Blocked tr) = False"

text \<open>
  The handler. The call \<^verbatim>\<open>slog.ErrorContext(ctx, "dumping request", errInput)\<close> passes
  the error without a key, which \<^verbatim>\<open>slog\<close> records under the key \<^verbatim>\<open>!BADKEY\<close>. The
  receive \<^verbatim>\<open><-ctx.Done()\<close> completes if and only if the context is cancelled;
  \<^verbatim>\<open>WithValue\<close> leaves the cancellation of the request's context as it is.
\<close>

definition ServeHTTP :: "env \<Rightarrow> service \<Rightarrow> request \<Rightarrow> outcome \<times> service" where
  "ServeHTTP e srv req =
     (case counter_Add srv 1 of
        (rid, srv') \<Rightarrow>
          (let ctx = WithValue (req_Context req) requestIDKey (AnyInt64 rid) in
           (case DumpRequest req of
              Inl errInput \<Rightarrow>
                Returned
                  [Log ctx LevelError ''dumping request'' [(''!BADKEY'', AnyError errInput)],
                   HttpError (''bad request: '' @ Error errInput) 400]
            | Inr dump \<Rightarrow>
                (let msg = writeStrs [] [''---'' @ [LF], dump, [LF], ''---'' @ [LF]];
                     action = query_action req;
                     pre = [Println msg,
                            Log ctx LevelInfo ''handling'' [(''action'', AnyString action)]]
                 in
                   if action = [] then
                     Returned (pre @ [ServeContent ''limeric.txt'' limeric])
                   else if action = ''hang'' then
                     (if ctx_cancelled ctx then Returned (pre @ [AwaitDone]) else Blocked pre)
                   else if action = ''close'' then
                     (case closeConn e of
                        (tr, Some err) \<Rightarrow>
                          Returned (pre @ tr @
                            [Log ctx LevelError ''closing connection'' [(''error'', AnyError err)],
                             HttpError (''can'' @ [CHR 0x27] @ ''t properly close connection'') 500])
                      | (tr, None) \<Rightarrow> Returned (pre @ tr))
                   else if action = ''slow-write'' then
                     (case slowWrite e req of
                        (tr, Some err) \<Rightarrow>
                          Returned (pre @ tr @
                            [Log ctx LevelError ''writing response'' [(''error'', AnyError err)],
                             HttpError (''can'' @ [CHR 0x27] @ ''t properly write response'') 500])
                      | (tr, None) \<Rightarrow> Returned (pre @ tr))
                   else
                     Returned (pre @ [HttpError ''unknown action'' 400]))),
           srv'))"

subsection \<open>Identifiers\<close>

text \<open>
  The state of the process: the counter \<^verbatim>\<open>connIDs\<close> that the \<^verbatim>\<open>ConnContext\<close> closure of
  \<^verbatim>\<open>main\<close> captures, and the service with its request counter. Both start at zero.
\<close>

record server =
  connIDs :: int64
  srv :: service

definition new_server :: server where
  "new_server = \<lparr>connIDs = 0, srv = \<lparr>counter = 0\<rparr>\<rparr>"

definition ConnContext :: "server \<Rightarrow> Context \<Rightarrow> Context \<times> server" where
  "ConnContext s ctx =
     (let connID = connIDs s + 1
      in (WithValue ctx connIDCtxKey (AnyInt64 connID), s\<lparr>connIDs := connID\<rparr>))"

text \<open>
  The identifier a context carries under a key, read the way the program reads it:
  \<^verbatim>\<open>ctx.Value(key).(int64)\<close>.
\<close>

definition ctx_id :: "Context \<Rightarrow> ctx_key \<Rightarrow> int64 option" where
  "ctx_id ctx k = (case Value ctx k of Some (AnyInt64 i) \<Rightarrow> Some i | _ \<Rightarrow> None)"

text \<open>The request identifier of a call of the handler: the one its first log line carries.\<close>

fun log_contexts :: "event list \<Rightarrow> Context list" where
  "log_contexts [] = []"
| "log_contexts (Log ctx l m a # tr) = ctx # log_contexts tr"
| "log_contexts (ev # tr) = log_contexts tr"

definition request_id :: "outcome \<Rightarrow> int64 option" where
  "request_id out =
     (case log_contexts (trace out) of [] \<Rightarrow> None | ctx # _ \<Rightarrow> ctx_id ctx requestIDKey)"

text \<open>
  A run of the server: connections are accepted and requests dispatched one after
  the other (each \<^verbatim>\<open>Add\<close> is atomic, so every concurrent run assigns identifiers as
  one such sequence does). \<open>assigned\<close> lists the identifiers in the order of assignment.
\<close>

datatype step = Accept Context | Dispatch env request

datatype ident = ConnID int64 | RequestID int64

fun assigned :: "server \<Rightarrow> step list \<Rightarrow> ident list" where
  "assigned s [] = []"
| "assigned s (Accept ctx # steps) =
     (case ConnContext s ctx of
        (ctx', s') \<Rightarrow>
          (case ctx_id ctx' connIDCtxKey of Some i \<Rightarrow> [ConnID i] | None \<Rightarrow> [])
          @ assigned s' steps)"
| "assigned s (Dispatch e req # steps) =
     (case ServeHTTP e (srv s) req of
        (out, srv') \<Rightarrow>
          (case request_id out of Some i \<Rightarrow> [RequestID i] | None \<Rightarrow> [])
          @ assigned (s\<lparr>srv := srv'\<rparr>) steps)"

fun conn_ids :: "ident list \<Rightarrow> int64 list" where
  "conn_ids [] = []"
| "conn_ids (ConnID i # ids) = i # conn_ids ids"
| "conn_ids (RequestID i # ids) = conn_ids ids"

fun request_ids :: "ident list \<Rightarrow> int64 list" where
  "request_ids [] = []"
| "request_ids (RequestID i # ids) = i # request_ids ids"
| "request_ids (ConnID i # ids) = request_ids ids"

fun is_Accept :: "step \<Rightarrow> bool" where
  "is_Accept (Accept ctx) = True"
| "is_Accept (Dispatch e req) = False"

subsection \<open>The log handler slogMeta\<close>

record Record =
  rec_level :: level
  rec_message :: string
  rec_attrs :: "(string \<times> any) list"

text \<open>\<^verbatim>\<open>record.Add(key, value)\<close> appends one attribute.\<close>

definition Add :: "Record \<Rightarrow> string \<Rightarrow> any \<Rightarrow> Record" where
  "Add r k v = r\<lparr>rec_attrs := rec_attrs r @ [(k, v)]\<rparr>"

text \<open>
  \<open>Handle h\<close> is the method of a \<^verbatim>\<open>slogMeta\<close> that embeds the handler \<open>h\<close>; its result is
  the result of \<open>h\<close>.
\<close>

definition Handle :: "(Context \<Rightarrow> Record \<Rightarrow> 'r) \<Rightarrow> Context \<Rightarrow> Record \<Rightarrow> 'r" where
  "Handle h ctx r =
     (let r1 = (case Value ctx requestIDKey of
                  Some (AnyInt64 reqID) \<Rightarrow> Add r ''request_id'' (AnyInt64 reqID)
                | _ \<Rightarrow> r);
          r2 = (case Value ctx connIDCtxKey of
                  Some (AnyInt64 connID) \<Rightarrow> Add r1 ''conn_id'' (AnyInt64 connID)
                | _ \<Rightarrow> r1)
      in h ctx r2)"

subsection \<open>What the client observes\<close>

text \<open>
  The bytes written to the hijacked connection, in order: those that the flushes put
  on it. A byte that \<^verbatim>\<open>w.Write\<close> accepted is in the writer's buffer only.
\<close>

fun conn_written :: "event list \<Rightarrow> string" where
  "conn_written [] = []"
| "conn_written (Flush sent r # tr) = sent @ conn_written tr"
| "conn_written (ev # tr) = conn_written tr"

text \<open>
  The reply that reaches the client through the response writer. \<^verbatim>\<open>http.Error\<close> sends
  the status code and the message followed by a newline, as plain text; the first
  reply is the one the client gets. Once \<^verbatim>\<open>Hijack\<close> has succeeded the response writer is
  detached from the connection: \<^verbatim>\<open>net/http\<close> turns every later \<^verbatim>\<open>WriteHeader\<close> and
  \<^verbatim>\<open>Write\<close> on it into a no-op (\<^verbatim>\<open>ErrHijacked\<close>).
\<close>

datatype reply = ErrorReply nat string string | ContentReply string string

fun client_reply :: "event list \<Rightarrow> reply option" where
  "client_reply [] = None"
| "client_reply (HttpError msg code # tr) =
     Some (ErrorReply code ''text/plain; charset=utf-8'' (msg @ [LF]))"
| "client_reply (ServeContent name content # tr) = Some (ContentReply name content)"
| "client_reply (Hijack None # tr) = None"
| "client_reply (ev # tr) = client_reply tr"


text \<open>The events that act on the transport connection itself.\<close>

fun conn_event :: "event \<Rightarrow> bool" where
  "conn_event (Hijack r) = True"
| "conn_event (ConnClose r) = True"
| "conn_event (Write bs r) = True"
| "conn_event (Flush sent r) = True"
| "conn_event ev = False"








text \<open>The events of one call of the handler.\<close>

definition events :: "env \<Rightarrow> service \<Rightarrow> request \<Rightarrow> event list" where
  "events e s req = trace (fst (ServeHTTP e s req))"

text \<open>The context that the handler derives from the request's and logs with.\<close>

definition handler_ctx :: "service \<Rightarrow> request \<Rightarrow> Context" where
  "handler_ctx s req = WithValue (req_Context req) requestIDKey (AnyInt64 (counter s + 1))"



fun error_log :: "event \<Rightarrow> bool" where
  "error_log (Log ctx LevelError m a) = True"
| "error_log ev = False"

text \<open>The events that belong to one of the actions: everything but logging.\<close>

fun action_event :: "event \<Rightarrow> bool" where
  "action_event (Log ctx l m a) = False"
| "action_event (Println m) = False"
| "action_event (HttpError m c) = False"
| "action_event ev = True"

subsection \<open>Sample inputs\<close>

definition background :: Context where
  "background = \<lparr>ctx_values = [], ctx_cancelled = False\<rparr>"

definition sample_request :: "string \<Rightarrow> request" where
  "sample_request a =
     \<lparr>req_Context = background, DumpRequest = Inr ''GET / HTTP/1.1'',
      query_action = a, Host = ''localhost:7080''\<rparr>"

text \<open>A request whose body cannot be read: \<^verbatim>\<open>DumpRequest\<close> returns the read error.\<close>

definition unreadable_request :: "string \<Rightarrow> request" where
  "unreadable_request a =
     \<lparr>req_Context = background, DumpRequest = Inl (New ''unexpected EOF''),
      query_action = a, Host = ''localhost:7080''\<rparr>"

text \<open>A connection that takes every byte.\<close>

definition env_ok :: env where
  "env_ok =
     \<lparr>Hijack_result = None, Conn_Write_result = (\<lambda>k. (1, None)), Close_result = None\<rparr>"



text \<open>A hijacked connection whose close fails.\<close>

definition env_close_fails :: env where
  "env_close_fails =
     \<lparr>Hijack_result = None, Conn_Write_result = (\<lambda>k. (1, None)),
      Close_result = Some (New ''use of closed network connection'')\<rparr>"

definition service0 :: service where
  "service0 = \<lparr>counter = 0\<rparr>"

section \<open>Properties\<close>

subsection \<open>The document, the response and the transmission loop\<close>

















subsection \<open>The shape of the handler's outcome\<close>

lemma ServeHTTP_state: "snd (ServeHTTP e s req) = s\<lparr>counter := counter s + 1\<rparr>"
  by (simp add: ServeHTTP_def counter_Add_def)

lemma events_unreadable:
  "DumpRequest req = Inl errInput \<Longrightarrow>
   fst (ServeHTTP e s req) =
     Returned [Log (handler_ctx s req) LevelError ''dumping request'' [(''!BADKEY'', AnyError errInput)],
               HttpError (''bad request: '' @ Error errInput) 400]"
  by (simp add: ServeHTTP_def counter_Add_def handler_ctx_def)

lemma events_readable:
  "DumpRequest req = Inr dump \<Longrightarrow>
   \<exists>rest. events e s req =
     [Println (''---'' @ [LF] @ dump @ [LF] @ ''---'' @ [LF]),
      Log (handler_ctx s req) LevelInfo ''handling'' [(''action'', AnyString (query_action req))]] @ rest"
  by (simp add: events_def ServeHTTP_def counter_Add_def handler_ctx_def Let_def split: prod.splits option.splits)

lemma outcome_hang:
  "DumpRequest req = Inr dump \<Longrightarrow> query_action req = ''hang'' \<Longrightarrow>
   fst (ServeHTTP e s req) =
     (let pre = [Println (''---'' @ [LF] @ dump @ [LF] @ ''---'' @ [LF]),
                 Log (handler_ctx s req) LevelInfo ''handling'' [(''action'', AnyString ''hang'')]]
      in if ctx_cancelled (req_Context req) then Returned (pre @ [AwaitDone]) else Blocked pre)"
  by (simp add: ServeHTTP_def counter_Add_def handler_ctx_def Let_def WithValue_def)

lemma outcome_close:
  "DumpRequest req = Inr dump \<Longrightarrow> query_action req = ''close'' \<Longrightarrow>
   fst (ServeHTTP e s req) =
     Returned
       ([Println (''---'' @ [LF] @ dump @ [LF] @ ''---'' @ [LF]),
         Log (handler_ctx s req) LevelInfo ''handling'' [(''action'', AnyString ''close'')]]
        @ fst (closeConn e)
        @ (case snd (closeConn e) of
             None \<Rightarrow> []
           | Some err \<Rightarrow>
               [Log (handler_ctx s req) LevelError ''closing connection'' [(''error'', AnyError err)],
                HttpError (''can'' @ [CHR 0x27] @ ''t properly close connection'') 500]))"
  by (simp add: ServeHTTP_def counter_Add_def handler_ctx_def Let_def split: prod.splits option.splits)


lemma outcome_unknown:
  "DumpRequest req = Inr dump \<Longrightarrow> query_action req \<noteq> [] \<Longrightarrow> query_action req \<noteq> ''hang'' \<Longrightarrow>
   query_action req \<noteq> ''close'' \<Longrightarrow> query_action req \<noteq> ''slow-write'' \<Longrightarrow>
   fst (ServeHTTP e s req) =
     Returned
       [Println (''---'' @ [LF] @ dump @ [LF] @ ''---'' @ [LF]),
        Log (handler_ctx s req) LevelInfo ''handling'' [(''action'', AnyString (query_action req))],
        HttpError ''unknown action'' 400]"
  by (simp add: ServeHTTP_def counter_Add_def handler_ctx_def Let_def)




lemma closeConn_no_hijack:
  "Hijack_result e = Some herr \<Longrightarrow>
   closeConn e = ([Hijack (Some herr)], Some (Errorf ''hijacking connection: '' herr))"
  by (simp add: closeConn_def)

lemma closeConn_hijacked:
  "Hijack_result e = None \<Longrightarrow> closeConn e = ([Hijack None, ConnClose (Close_result e)], None)"
  by (simp add: closeConn_def)


subsection \<open>The close action and unreadable requests\<close>

lemma outcome_close_cases:
  assumes "query_action req = ''close''"
  shows "(\<exists>errInput. DumpRequest req = Inl errInput \<and>
            fst (ServeHTTP e s req) =
              Returned
                [Log (handler_ctx s req) LevelError ''dumping request'' [(''!BADKEY'', AnyError errInput)],
                 HttpError (''bad request: '' @ Error errInput) 400])
       \<or> (\<exists>dump herr. DumpRequest req = Inr dump \<and> Hijack_result e = Some herr \<and>
            fst (ServeHTTP e s req) =
              Returned
                [Println (''---'' @ [LF] @ dump @ [LF] @ ''---'' @ [LF]),
                 Log (handler_ctx s req) LevelInfo ''handling'' [(''action'', AnyString ''close'')],
                 Hijack (Some herr),
                 Log (handler_ctx s req) LevelError ''closing connection''
                   [(''error'', AnyError (Errorf ''hijacking connection: '' herr))],
                 HttpError (''can'' @ [CHR 0x27] @ ''t properly close connection'') 500])
       \<or> (\<exists>dump. DumpRequest req = Inr dump \<and> Hijack_result e = None \<and>
            fst (ServeHTTP e s req) =
              Returned
                [Println (''---'' @ [LF] @ dump @ [LF] @ ''---'' @ [LF]),
                 Log (handler_ctx s req) LevelInfo ''handling'' [(''action'', AnyString ''close'')],
                 Hijack None, ConnClose (Close_result e)])"
proof (cases "DumpRequest req")
  case (Inl errInput)
  then show ?thesis by (simp add: events_unreadable)
next
  case (Inr dump)
  show ?thesis
  proof (cases "Hijack_result e")
    case None
    with Inr assms show ?thesis
      by (simp add: outcome_close closeConn_hijacked)
  next
    case (Some herr)
    with Inr assms show ?thesis
      by (simp add: outcome_close closeConn_no_hijack)
  qed
qed



text \<open>
  Claim C6. A request that cannot be read (\<^verbatim>\<open>DumpRequest\<close> fails) is answered with
  400 Bad Request and the handler returns; no event of any action happens, and the
  outcome is the same whatever the action parameter and whatever the connection would
  answer: the action is not looked at.
\<close>
theorem unreadable_request_rejected:
  assumes "DumpRequest req = Inl errInput"
  shows "client_reply (events e s req) =
           Some (ErrorReply 400 ''text/plain; charset=utf-8'' (''bad request: '' @ Error errInput @ [LF]))
       \<and> terminates (fst (ServeHTTP e s req))
       \<and> filter action_event (events e s req) = []
       \<and> fst (ServeHTTP e' s (req\<lparr>query_action := a\<rparr>)) = fst (ServeHTTP e s req)"
  using assms by (simp add: events_def events_unreadable handler_ctx_def)

theorem unreadable_request_rejected_witness:
  "DumpRequest (unreadable_request ''close'') = Inl (New ''unexpected EOF'') \<and>
   client_reply (events env_ok service0 (unreadable_request ''close'')) =
     Some (ErrorReply 400 ''text/plain; charset=utf-8'' (''bad request: unexpected EOF'' @ [LF])) \<and>
   filter action_event (events env_ok service0 (unreadable_request ''close'')) = []"
proof -
  have a: "DumpRequest (unreadable_request ''close'') = Inl (New ''unexpected EOF'')"
    by (simp add: unreadable_request_def)
  from unreadable_request_rejected [OF a, where e = env_ok and s = service0] a show ?thesis by simp
qed

text \<open>
  Claim C10. \<^verbatim>\<open>closeConn\<close> returns an error exactly when the hijack fails, whatever
  \<^verbatim>\<open>conn.Close()\<close> returns. When a \<^verbatim>\<open>close\<close> request's connection is hijacked and
  closing it fails with \<open>cerr\<close>, \<^verbatim>\<open>closeConn\<close> still returns nil, nothing reaches the
  client, nothing is logged at error level, and the failed close is the handler's last
  event.
\<close>
theorem closeConn_error_iff_hijack_fails:
  "(snd (closeConn e) \<noteq> None \<longleftrightarrow> Hijack_result e \<noteq> None)
   \<and> (query_action req = ''close'' \<and> ConnClose (Some cerr) \<in> set (events e s req) \<longrightarrow>
        Close_result e = Some cerr \<and>
        snd (closeConn e) = None \<and>
        client_reply (events e s req) = None \<and>
        filter error_log (events e s req) = [] \<and>
        last (events e s req) = ConnClose (Some cerr))"
proof -
  have 1: "snd (closeConn e) \<noteq> None \<longleftrightarrow> Hijack_result e \<noteq> None"
    by (simp add: closeConn_def split: option.splits)
  have 2: "Close_result e = Some cerr \<and>
        snd (closeConn e) = None \<and>
        client_reply (events e s req) = None \<and>
        filter error_log (events e s req) = [] \<and>
        last (events e s req) = ConnClose (Some cerr)"
    if a: "query_action req = ''close''" and c: "ConnClose (Some cerr) \<in> set (events e s req)"
    using outcome_close_cases [OF a, of e s] c
    apply (elim disjE exE conjE)
    apply (simp add: events_def)
    apply (simp add: events_def)
    apply (simp add: events_def closeConn_hijacked)
    done
  from 1 2 show ?thesis by blast
qed

theorem closeConn_error_iff_hijack_fails_witness:
  "snd (closeConn env_close_fails) = None \<and>
   query_action (sample_request ''close'') = ''close'' \<and>
   ConnClose (Some (New ''use of closed network connection''))
     \<in> set (events env_close_fails service0 (sample_request ''close'')) \<and>
   client_reply (events env_close_fails service0 (sample_request ''close'')) = None \<and>
   filter error_log (events env_close_fails service0 (sample_request ''close'')) = []"
proof -
  have a: "query_action (sample_request ''close'') = ''close''"
    by (simp add: sample_request_def)
  have c: "ConnClose (Some (New ''use of closed network connection''))
     \<in> set (events env_close_fails service0 (sample_request ''close''))"
    by (simp add: events_def ServeHTTP_def counter_Add_def closeConn_def env_close_fails_def
        sample_request_def service0_def Let_def)
  from closeConn_error_iff_hijack_fails
         [where e = env_close_fails and req = "sample_request ''close''" and s = service0
          and cerr = "New ''use of closed network connection''"]
       a c
  show ?thesis by simp
qed

subsection \<open>The slow-write action\<close>



























subsection \<open>The hang action, unknown actions and the log handler\<close>

text \<open>
  Claim C4, amended. For a request that was read and has action \<^verbatim>\<open>hang\<close>: no reply
  reaches the client, nothing is written to the connection and nothing is done to it;
  the handler returns if and only if the request's context is cancelled, and the wait
  for the cancellation is then its only action.
\<close>
theorem hang_action:
  assumes "DumpRequest req = Inr dump" and "query_action req = ''hang''"
  shows "client_reply (events e s req) = None
       \<and> conn_written (events e s req) = []
       \<and> filter conn_event (events e s req) = []
       \<and> (terminates (fst (ServeHTTP e s req)) \<longleftrightarrow> ctx_cancelled (req_Context req))
       \<and> filter action_event (events e s req) =
           (if ctx_cancelled (req_Context req) then [AwaitDone] else [])"
  using assms by (simp add: events_def outcome_hang Let_def)

theorem hang_action_witness:
  "DumpRequest (sample_request ''hang'') = Inr ''GET / HTTP/1.1'' \<and>
   query_action (sample_request ''hang'') = ''hang'' \<and>
   client_reply (events env_ok service0 (sample_request ''hang'')) = None \<and>
   \<not> terminates (fst (ServeHTTP env_ok service0 (sample_request ''hang''))) \<and>
   terminates (fst (ServeHTTP env_ok service0
     ((sample_request ''hang'')\<lparr>req_Context := background\<lparr>ctx_cancelled := True\<rparr>\<rparr>)))"
proof -
  have d: "DumpRequest (sample_request ''hang'') = Inr ''GET / HTTP/1.1''"
    by (simp add: sample_request_def)
  have a: "query_action (sample_request ''hang'') = ''hang''"
    by (simp add: sample_request_def)
  have d': "DumpRequest ((sample_request ''hang'')\<lparr>req_Context := background\<lparr>ctx_cancelled := True\<rparr>\<rparr>)
              = Inr ''GET / HTTP/1.1''"
    by (simp add: sample_request_def)
  have a': "query_action ((sample_request ''hang'')\<lparr>req_Context := background\<lparr>ctx_cancelled := True\<rparr>\<rparr>)
              = ''hang''"
    by (simp add: sample_request_def)
  from hang_action [OF d a, where e = env_ok and s = service0]
       hang_action [OF d' a', where e = env_ok and s = service0] d a
  show ?thesis by (simp add: sample_request_def background_def)
qed

text \<open>
  Claim C4 as it is stated does not hold for a request that cannot be read: the handler
  answers 400 and returns, although the action is \<^verbatim>\<open>hang\<close> and the context is never
  cancelled.
\<close>

theorem hang_action_counterexample:
  "query_action (unreadable_request ''hang'') = ''hang'' \<and>
   \<not> ctx_cancelled (req_Context (unreadable_request ''hang'')) \<and>
   terminates (fst (ServeHTTP env_ok service0 (unreadable_request ''hang''))) \<and>
   client_reply (events env_ok service0 (unreadable_request ''hang'')) =
     Some (ErrorReply 400 ''text/plain; charset=utf-8'' (''bad request: unexpected EOF'' @ [LF]))"
  by (simp add: events_def ServeHTTP_def counter_Add_def unreadable_request_def background_def
      service0_def Let_def)

text \<open>
  Claim C7, amended. For a request that was read and whose action is neither empty nor
  \<^verbatim>\<open>hang\<close>, \<^verbatim>\<open>close\<close> or \<^verbatim>\<open>slow-write\<close>: the client gets 400 Bad Request with the
  plain-text body \<^verbatim>\<open>unknown action\<close>, nothing is done to the connection (no hijack, no
  close, no raw write), and the handler returns.
\<close>
theorem unknown_action:
  assumes "DumpRequest req = Inr dump"
    and "query_action req \<noteq> []" and "query_action req \<noteq> ''hang''"
    and "query_action req \<noteq> ''close''" and "query_action req \<noteq> ''slow-write''"
  shows "client_reply (events e s req) =
           Some (ErrorReply 400 ''text/plain; charset=utf-8'' (''unknown action'' @ [LF]))
       \<and> filter conn_event (events e s req) = []
       \<and> filter action_event (events e s req) = []
       \<and> terminates (fst (ServeHTTP e s req))"
  using assms by (simp add: events_def outcome_unknown)

theorem unknown_action_witness:
  "DumpRequest (sample_request ''bogus'') = Inr ''GET / HTTP/1.1'' \<and>
   query_action (sample_request ''bogus'') \<noteq> [] \<and>
   query_action (sample_request ''bogus'') \<noteq> ''hang'' \<and>
   query_action (sample_request ''bogus'') \<noteq> ''close'' \<and>
   query_action (sample_request ''bogus'') \<noteq> ''slow-write'' \<and>
   client_reply (events env_ok service0 (sample_request ''bogus'')) =
     Some (ErrorReply 400 ''text/plain; charset=utf-8'' (''unknown action'' @ [LF])) \<and>
   filter conn_event (events env_ok service0 (sample_request ''bogus'')) = []"
proof -
  have d: "DumpRequest (sample_request ''bogus'') = Inr ''GET / HTTP/1.1''"
    by (simp add: sample_request_def)
  have a1: "query_action (sample_request ''bogus'') \<noteq> []"
    and a2: "query_action (sample_request ''bogus'') \<noteq> ''hang''"
    and a3: "query_action (sample_request ''bogus'') \<noteq> ''close''"
    and a4: "query_action (sample_request ''bogus'') \<noteq> ''slow-write''"
    by (simp_all add: sample_request_def)
  from unknown_action [OF d a1 a2 a3 a4, where e = env_ok and s = service0] d a1 a2 a3 a4
  show ?thesis by simp
qed

text \<open>
  Claim C7 as it is stated does not hold for a request that cannot be read: the body of
  the 400 reply reports the read error, not an unknown action.
\<close>

theorem unknown_action_counterexample:
  "query_action (unreadable_request ''bogus'') \<noteq> [] \<and>
   query_action (unreadable_request ''bogus'') \<noteq> ''hang'' \<and>
   query_action (unreadable_request ''bogus'') \<noteq> ''close'' \<and>
   query_action (unreadable_request ''bogus'') \<noteq> ''slow-write'' \<and>
   client_reply (events env_ok service0 (unreadable_request ''bogus'')) =
     Some (ErrorReply 400 ''text/plain; charset=utf-8'' (''bad request: unexpected EOF'' @ [LF])) \<and>
   client_reply (events env_ok service0 (unreadable_request ''bogus'')) \<noteq>
     Some (ErrorReply 400 ''text/plain; charset=utf-8'' (''unknown action'' @ [LF]))"
  by (simp add: events_def ServeHTTP_def counter_Add_def unreadable_request_def background_def
      service0_def Let_def)

text \<open>
  Claim C9. \<^verbatim>\<open>Handle\<close> passes to the wrapped handler the same context and the record
  with, appended to its attributes, \<^verbatim>\<open>request_id\<close> if the context carries a request
  identifier and then \<^verbatim>\<open>conn_id\<close> if it carries a connection identifier; an absent
  identifier adds nothing. Level, message and earlier attributes are unchanged, and
  the result is the wrapped handler's.
\<close>
theorem Handle_attaches_identifiers:
  "Handle h ctx r =
     h ctx (r\<lparr>rec_attrs := rec_attrs r
               @ (case ctx_id ctx requestIDKey of
                    Some reqID \<Rightarrow> [(''request_id'', AnyInt64 reqID)] | None \<Rightarrow> [])
               @ (case ctx_id ctx connIDCtxKey of
                    Some connID \<Rightarrow> [(''conn_id'', AnyInt64 connID)] | None \<Rightarrow> [])\<rparr>)"
  by (simp add: Handle_def Add_def ctx_id_def Let_def split: option.splits any.splits)

subsection \<open>Identifiers\<close>

lemma sint_of_nat_small:
  assumes "k < 2 ^ 63"
  shows "sint (of_nat k :: int64) = int k"
proof -
  have "(of_nat k :: int64) = word_of_int (int k)" by simp
  then have "sint (of_nat k :: int64) = (int k + 2 ^ 63) mod 2 ^ 64 - 2 ^ 63"
    by (simp only: int_word_sint) simp
  moreover have "int k < 2 ^ 63" using assms by (simp add: of_nat_less_iff [of k "2 ^ 63", simplified])
  ultimately show ?thesis by simp
qed

lemma ctx_id_WithValue: "ctx_id (WithValue ctx k (AnyInt64 i)) k = Some i"
  by (simp add: ctx_id_def Value_def WithValue_def)

lemma ServeHTTP_request_id: "request_id (fst (ServeHTTP e s req)) = Some (counter s + 1)"
proof (cases "DumpRequest req")
  case (Inl errInput)
  then show ?thesis
    by (simp add: request_id_def events_unreadable handler_ctx_def ctx_id_WithValue)
next
  case (Inr dump)
  from events_readable [OF this, of e s] obtain rest where
    "trace (fst (ServeHTTP e s req)) =
       [Println (''---'' @ [LF] @ dump @ [LF] @ ''---'' @ [LF]),
        Log (handler_ctx s req) LevelInfo ''handling'' [(''action'', AnyString (query_action req))]] @ rest"
    unfolding events_def by blast
  then show ?thesis
    by (simp add: request_id_def handler_ctx_def ctx_id_WithValue)
qed

lemma assigned_Accept:
  "assigned s (Accept ctx # steps) =
     ConnID (connIDs s + 1) # assigned (s\<lparr>connIDs := connIDs s + 1\<rparr>) steps"
  by (simp add: ConnContext_def Let_def ctx_id_WithValue)

lemma assigned_Dispatch:
  "assigned s (Dispatch e req # steps) =
     RequestID (counter (srv s) + 1) # assigned (s\<lparr>srv := (srv s)\<lparr>counter := counter (srv s) + 1\<rparr>\<rparr>) steps"
proof -
  obtain out srv' where r: "ServeHTTP e (srv s) req = (out, srv')"
    by (cases "ServeHTTP e (srv s) req")
  from r ServeHTTP_request_id [of e "srv s" req] have 1: "request_id out = Some (counter (srv s) + 1)"
    by simp
  from r ServeHTTP_state [of e "srv s" req] have 2: "srv' = (srv s)\<lparr>counter := counter (srv s) + 1\<rparr>"
    by simp
  show ?thesis by (simp add: r 1 2)
qed

lemma upt_shift: "map f [0..<Suc n] = f 0 # map (\<lambda>k. f (Suc k)) [0..<n]"
  by (simp add: upt_conv_Cons map_Suc_upt [symmetric] del: upt_Suc)

lemma conn_ids_assigned:
  "conn_ids (assigned s steps) =
     map (\<lambda>k. connIDs s + of_nat (Suc k)) [0..<length (filter is_Accept steps)]"
proof (induction steps arbitrary: s)
  case Nil
  then show ?case by simp
next
  case (Cons st steps)
  show ?case
  proof (cases st)
    case (Accept ctx)
    have "conn_ids (assigned s (st # steps)) =
            (connIDs s + 1) # map (\<lambda>k. connIDs s + 1 + of_nat (Suc k)) [0..<length (filter is_Accept steps)]"
      unfolding Accept assigned_Accept by (simp add: Cons.IH)
    also have "\<dots> = map (\<lambda>k. connIDs s + of_nat (Suc k)) [0..<Suc (length (filter is_Accept steps))]"
      unfolding upt_shift by (simp add: add.assoc)
    finally show ?thesis by (simp add: Accept)
  next
    case (Dispatch e req)
    show ?thesis
      unfolding Dispatch assigned_Dispatch by (simp add: Cons.IH)
  qed
qed

lemma request_ids_assigned:
  "request_ids (assigned s steps) =
     map (\<lambda>k. counter (srv s) + of_nat (Suc k)) [0..<length (filter (\<lambda>st. \<not> is_Accept st) steps)]"
proof (induction steps arbitrary: s)
  case Nil
  then show ?case by simp
next
  case (Cons st steps)
  show ?case
  proof (cases st)
    case (Accept ctx)
    show ?thesis
      unfolding Accept assigned_Accept by (simp add: Cons.IH)
  next
    case (Dispatch e req)
    have "request_ids (assigned s (st # steps)) =
            (counter (srv s) + 1) #
            map (\<lambda>k. counter (srv s) + 1 + of_nat (Suc k)) [0..<length (filter (\<lambda>st. \<not> is_Accept st) steps)]"
      unfolding Dispatch assigned_Dispatch by (simp add: Cons.IH)
    also have "\<dots> = map (\<lambda>k. counter (srv s) + of_nat (Suc k))
                        [0..<Suc (length (filter (\<lambda>st. \<not> is_Accept st) steps))]"
      unfolding upt_shift by (simp add: add.assoc)
    finally show ?thesis by (simp add: Dispatch)
  qed
qed

lemma fresh_ids_increasing:
  assumes "n < 2 ^ 63"
  shows "sorted_wrt (\<lambda>a b. sint a < sint b) (map (\<lambda>k. (0 :: int64) + of_nat (Suc k)) [0..<n])"
proof -
  have "sint ((0 :: int64) + of_nat (Suc i)) < sint ((0 :: int64) + of_nat (Suc j))"
    if "i < j" and "j < n" for i j
  proof -
    have "Suc i < 2 ^ 63" and "Suc j < 2 ^ 63" using that assms by simp_all
    then have "sint (of_nat (Suc i) :: int64) = int (Suc i)"
      and "sint (of_nat (Suc j) :: int64) = int (Suc j)"
      by (simp_all only: sint_of_nat_small)
    with that show ?thesis by simp
  qed
  then show ?thesis
    by (simp add: sorted_wrt_iff_nth_less del: of_nat_Suc)
qed

lemma increasing_distinct:
  "sorted_wrt (\<lambda>a b. sint a < sint b) (xs :: int64 list) \<Longrightarrow> distinct xs"
  by (induction xs) auto


text \<open>
  Claim C8, amended. In a run from a fresh process with fewer than \<open>2 ^ 63\<close> accepted
  connections and fewer than \<open>2 ^ 63\<close> dispatched requests, the k-th connection gets
  the identifier k and the k-th request the identifier k (counting from 1): within each
  kind every identifier is greater, as a signed 64-bit integer, than all the earlier
  ones, so no identifier is assigned twice; and the identifiers of one kind do not
  depend on the steps of the other kind.
\<close>
theorem identifiers_increasing:
  assumes "length (filter is_Accept steps) < 2 ^ 63"
    and "length (filter (\<lambda>st. \<not> is_Accept st) steps) < 2 ^ 63"
  shows "conn_ids (assigned new_server steps) =
           map (\<lambda>k. of_nat (Suc k)) [0..<length (filter is_Accept steps)]
       \<and> request_ids (assigned new_server steps) =
           map (\<lambda>k. of_nat (Suc k)) [0..<length (filter (\<lambda>st. \<not> is_Accept st) steps)]
       \<and> sorted_wrt (\<lambda>a b. sint a < sint b) (conn_ids (assigned new_server steps))
       \<and> sorted_wrt (\<lambda>a b. sint a < sint b) (request_ids (assigned new_server steps))
       \<and> distinct (conn_ids (assigned new_server steps))
       \<and> distinct (request_ids (assigned new_server steps))
       \<and> conn_ids (assigned new_server steps) =
           conn_ids (assigned new_server (filter is_Accept steps))
       \<and> request_ids (assigned new_server steps) =
           request_ids (assigned new_server (filter (\<lambda>st. \<not> is_Accept st) steps))"
proof -
  have c: "conn_ids (assigned new_server steps) =
             map (\<lambda>k. (0 :: int64) + of_nat (Suc k)) [0..<length (filter is_Accept steps)]"
    by (simp only: conn_ids_assigned) (simp add: new_server_def)
  have r: "request_ids (assigned new_server steps) =
             map (\<lambda>k. (0 :: int64) + of_nat (Suc k)) [0..<length (filter (\<lambda>st. \<not> is_Accept st) steps)]"
    by (simp only: request_ids_assigned) (simp add: new_server_def)
  have c': "conn_ids (assigned new_server (filter is_Accept steps)) =
             map (\<lambda>k. (0 :: int64) + of_nat (Suc k)) [0..<length (filter is_Accept steps)]"
    by (simp only: conn_ids_assigned) (simp add: new_server_def)
  have r': "request_ids (assigned new_server (filter (\<lambda>st. \<not> is_Accept st) steps)) =
             map (\<lambda>k. (0 :: int64) + of_nat (Suc k)) [0..<length (filter (\<lambda>st. \<not> is_Accept st) steps)]"
    by (simp only: request_ids_assigned) (simp add: new_server_def)
  have sc: "sorted_wrt (\<lambda>a b. sint a < sint b) (conn_ids (assigned new_server steps))"
    unfolding c using assms(1) by (rule fresh_ids_increasing)
  have sr: "sorted_wrt (\<lambda>a b. sint a < sint b) (request_ids (assigned new_server steps))"
    unfolding r using assms(2) by (rule fresh_ids_increasing)
  have dc: "distinct (conn_ids (assigned new_server steps))"
    using sc by (rule increasing_distinct)
  have dr: "distinct (request_ids (assigned new_server steps))"
    using sr by (rule increasing_distinct)
  have c0: "conn_ids (assigned new_server steps) =
           map (\<lambda>k. of_nat (Suc k)) [0..<length (filter is_Accept steps)]"
    unfolding c by simp
  have r0: "request_ids (assigned new_server steps) =
           map (\<lambda>k. of_nat (Suc k)) [0..<length (filter (\<lambda>st. \<not> is_Accept st) steps)]"
    unfolding r by simp
  have ic: "conn_ids (assigned new_server steps) =
           conn_ids (assigned new_server (filter is_Accept steps))"
    unfolding c c' by (rule refl)
  have ir: "request_ids (assigned new_server steps) =
           request_ids (assigned new_server (filter (\<lambda>st. \<not> is_Accept st) steps))"
    unfolding r r' by (rule refl)
  from c0 r0 sc sr dc dr ic ir show ?thesis by blast
qed

theorem identifiers_increasing_witness:
  "length (filter is_Accept [Accept background, Dispatch env_ok (sample_request ''close''),
                             Accept background, Dispatch env_ok (unreadable_request ''hang'')]) < 2 ^ 63 \<and>
   length (filter (\<lambda>st. \<not> is_Accept st)
            [Accept background, Dispatch env_ok (sample_request ''close''),
             Accept background, Dispatch env_ok (unreadable_request ''hang'')]) < 2 ^ 63 \<and>
   conn_ids (assigned new_server
     [Accept background, Dispatch env_ok (sample_request ''close''),
      Accept background, Dispatch env_ok (unreadable_request ''hang'')]) = [1, 2] \<and>
   request_ids (assigned new_server
     [Accept background, Dispatch env_ok (sample_request ''close''),
      Accept background, Dispatch env_ok (unreadable_request ''hang'')]) = [1, 2]"
proof -
  let ?steps = "[Accept background, Dispatch env_ok (sample_request ''close''),
                 Accept background, Dispatch env_ok (unreadable_request ''hang'')]"
  have a: "length (filter is_Accept ?steps) < 2 ^ 63" by simp
  have b: "length (filter (\<lambda>st. \<not> is_Accept st) ?steps) < 2 ^ 63" by simp
  from identifiers_increasing [OF a b] a b show ?thesis
    by (simp add: upt_conv_Cons)
qed

text \<open>
  Claim C8 as it is stated does not hold for every sequence: the counters are 64-bit
  and wrap around. The first connection of a process gets the identifier 1; the
  connection number \<open>2 ^ 63\<close> gets \<open>- 2 ^ 63\<close>, which is smaller.
\<close>

theorem identifiers_increasing_counterexample:
  "sint (conn_ids (assigned new_server (replicate (2 ^ 63) (Accept background))) ! 0) = 1 \<and>
   sint (conn_ids (assigned new_server (replicate (2 ^ 63) (Accept background))) ! (2 ^ 63 - 1))
     = - (2 ^ 63) \<and>
   sint (conn_ids (assigned new_server (replicate (2 ^ 63) (Accept background))) ! (2 ^ 63 - 1))
     < sint (conn_ids (assigned new_server (replicate (2 ^ 63) (Accept background))) ! 0)"
proof -
  have ids: "conn_ids (assigned new_server (replicate (2 ^ 63) (Accept background))) =
          map (\<lambda>k. (0 :: int64) + of_nat (Suc k)) [0..<2 ^ 63]"
    by (simp only: conn_ids_assigned) (simp add: new_server_def)
  have 0: "map (\<lambda>k. (0 :: int64) + of_nat (Suc k)) [0..<2 ^ 63] ! 0 = 1"
    by (subst nth_map) simp_all
  have 1: "map (\<lambda>k. (0 :: int64) + of_nat (Suc k)) [0..<2 ^ 63] ! (2 ^ 63 - 1) = of_nat (2 ^ 63)"
    by (subst nth_map) simp_all
  show ?thesis unfolding ids 0 1 by simp
qed

end

